theory Spec2Isabelle
  imports Complex_Main
begin

section \<open>The profit-and-loss kernel of calcProfitLoss.cpp\<close>

text \<open>
  The embedding follows \<^verbatim>\<open>mexFunction\<close> of calcProfitLoss.cpp from the shape checks on the
  inputs (line 161) to the final aggregation loop (line 421).

  Conventions of the model.
  \<^item> A \<^verbatim>\<open>double\<close> is a \<open>real\<close>: the comparisons, the truncation \<^verbatim>\<open>int(x)\<close> and the
    difference \<^verbatim>\<open>x - int(x)\<close> of the source are exact on finite doubles, the sums and
    products of prices are idealised (no rounding, no NaN, no infinity).
  \<^item> A C++ \<^verbatim>\<open>int\<close> is an \<open>int\<close>: signed overflow is undefined in C++ and outside the model.
  \<^item> \<^verbatim>\<open>mwSize\<close> row and column counts are \<open>nat\<close>.
  \<^item> The price matrix is the column-major buffer behind \<^verbatim>\<open>dataInPtr\<close>, a list of
    \<open>rowsData * colsData\<close> numbers; the signal is a single column.
  \<^item> \<^verbatim>\<open>mexErrMsgIdAndTxt\<close> aborts the call: it is the left summand of the result.
    \<^verbatim>\<open>front()\<close> on an empty deque is undefined behaviour and has an error value of its own.
\<close>

subsection \<open>Data\<close>

record tradeEntry =
  index :: int
  quantity :: int
  price :: real

record inputs =
  dataIn :: "real list"
  sigIn :: "real list"
  rowsData :: nat
  colsData :: nat
  BIG_POINT :: real
  COST :: real

record ledgerState =
  openLedger :: "tradeEntry list"
  openPosition :: int
  cashIdx :: "real list"
  openEQIdx :: "real list"

record outputs =
  cash :: "real list"
  openEQ :: "real list"
  netLiq :: "real list"
  returns :: "real list"

datatype error =
    ArrayMismatch nat
  | FractionUnknown real nat
  | EmptyLedgerFront

text \<open>
  \<open>ArrayMismatch l\<close> and \<open>FractionUnknown v l\<close> carry the line number \<open>l\<close> that the message
  of the source ends with; \<open>FractionUnknown\<close> also carries the signal value \<open>v\<close> printed by
  the \<^verbatim>\<open>%f\<close> of the message. No message of the source prints a bar index.
\<close>

subsection \<open>Helpers\<close>

definition cint :: "real \<Rightarrow> int" where
  \<comment> \<open>The conversion \<^verbatim>\<open>int(x)\<close> of a double: truncation toward zero.\<close>
  "cint x = (if 0 \<le> x then \<lfloor>x\<rfloor> else \<lceil>x\<rceil>)"

definition createLineEntry :: "int \<Rightarrow> int \<Rightarrow> real \<Rightarrow> tradeEntry" where
  "createLineEntry ID qty prc = \<lparr>index = ID, quantity = qty, price = prc\<rparr>"

definition sumQty :: "tradeEntry list \<Rightarrow> int" where
  "sumQty x = foldl (\<lambda>sumOfQty it. sumOfQty + quantity it) 0 x"

definition fraction :: "real \<Rightarrow> bool" where
  \<comment> \<open>Modelled from the spec: \<^verbatim>\<open>fraction\<close> is declared in calcProfitLoss.cpp and defined in
      myMath.h, which is not part of the sources. The spec calls a signal advanced when it
      has a nonzero fractional part, so \<open>fraction num\<close> holds when \<open>num\<close> is not whole.\<close>
  "fraction num = (num \<noteq> of_int (cint num))"

definition knownAdvSig :: "real \<Rightarrow> bool" where
  "knownAdvSig advSig = (let frac = \<bar>advSig - of_int (cint advSig)\<bar> in frac = 1 / 2)"

definition additiveTrade :: "int \<Rightarrow> real \<Rightarrow> bool" where
  \<comment> \<open>The test of lines 259 and 300.\<close>
  "additiveTrade pos s = ((pos \<le> 0 \<and> s \<le> - 1) \<or> (pos \<ge> 0 \<and> s \<ge> 1))"

definition SHIFT_CLOSE :: "inputs \<Rightarrow> nat" where
  "SHIFT_CLOSE inp = rowsData inp * (if colsData inp = 4 then 3 else 1)"

subsection \<open>The ledger loops\<close>

fun liquidate :: "real \<Rightarrow> real \<Rightarrow> real \<Rightarrow> tradeEntry list \<Rightarrow> real \<Rightarrow> real" where
  \<comment> \<open>The loops of lines 271 and 314: the value of \<^verbatim>\<open>cashIdx[ii+1]\<close> once the ledger is empty.\<close>
  "liquidate px bp cst [] c = c"
| "liquidate px bp cst (e # es) c =
     liquidate px bp cst es
       (c + ((px - price e) * of_int (quantity e) * bp) - (of_int \<bar>quantity e\<bar> * cst))"

fun partialLiq ::
  "real \<Rightarrow> real \<Rightarrow> real \<Rightarrow> int \<Rightarrow> tradeEntry list \<Rightarrow> real \<Rightarrow> (tradeEntry list \<times> real) option" where
  \<comment> \<open>The loop of line 340 on \<^verbatim>\<open>needQty\<close>: the ledger and \<^verbatim>\<open>cashIdx[ii+1]\<close> when it ends,
      \<open>None\<close> when it calls \<^verbatim>\<open>front()\<close> on an empty ledger.\<close>
  "partialLiq px bp cst needQty [] c = (if needQty \<noteq> 0 then None else Some ([], c))"
| "partialLiq px bp cst needQty (e # es) c =
     (if needQty \<noteq> 0 then
        if \<bar>quantity e\<bar> > needQty then
          Some (e\<lparr>quantity := quantity e + needQty\<rparr> # es,
                c + ((px - price e) * of_int (- needQty) * bp) - (of_int \<bar>needQty\<bar> * cst))
        else
          partialLiq px bp cst (needQty + quantity e) es
            (c + ((px - price e) * of_int (- quantity e) * bp) - (of_int \<bar>quantity e\<bar> * cst))
      else Some (e # es, c))"

subsection \<open>One bar\<close>

definition advanced :: "inputs \<Rightarrow> nat \<Rightarrow> ledgerState \<Rightarrow> error + ledgerState" where
  \<comment> \<open>Lines 251 to 297: the handling of a fractional signal.\<close>
  "advanced inp ii st =
     (let s = sigIn inp ! ii in
      if fraction s then
        if knownAdvSig s then
          if additiveTrade (openPosition st) s then Inr st
          else if \<bar>s - of_int (cint s)\<bar> = 1 / 2 then
            Inr (st\<lparr>cashIdx := (cashIdx st)[ii + 1 :=
                       liquidate (dataIn inp ! (ii + 1)) (BIG_POINT inp) (COST inp)
                         (openLedger st) (cashIdx st ! (ii + 1))],
                    openLedger := [],
                    openPosition := 0\<rparr>)
          else Inl (FractionUnknown s 286)
        else Inl (FractionUnknown s 295)
      else Inr st)"

definition fullLiquidation :: "int \<Rightarrow> real \<Rightarrow> bool" where
  \<comment> \<open>The test of line 311.\<close>
  "fullLiquidation pos s = (cint \<bar>s\<bar> \<ge> \<bar>pos\<bar>)"

definition integerTrade :: "inputs \<Rightarrow> nat \<Rightarrow> ledgerState \<Rightarrow> error + ledgerState" where
  \<comment> \<open>Lines 299 to 368.\<close>
  "integerTrade inp ii st =
     (let s = sigIn inp ! ii; px = dataIn inp ! (ii + 1) in
      if additiveTrade (openPosition st) s then
        Inr (st\<lparr>openLedger := openLedger st @ [createLineEntry (int ii) (cint s) px],
                openPosition := openPosition st + cint s\<rparr>)
      else if fullLiquidation (openPosition st) s then
        (let c = liquidate px (BIG_POINT inp) (COST inp) (openLedger st) (cashIdx st ! (ii + 1));
             pos = cint s + openPosition st
         in Inr (st\<lparr>cashIdx := (cashIdx st)[ii + 1 := c],
                    openPosition := pos,
                    openLedger := (if pos \<noteq> 0 then [createLineEntry (int ii) pos px] else [])\<rparr>))
      else
        (case partialLiq px (BIG_POINT inp) (COST inp) (cint s) (openLedger st)
                (cashIdx st ! (ii + 1)) of
           None \<Rightarrow> Inl EmptyLedgerFront
         | Some (led, c) \<Rightarrow>
             Inr (st\<lparr>cashIdx := (cashIdx st)[ii + 1 := c],
                     openLedger := led,
                     openPosition := cint (of_int (openPosition st) + s)\<rparr>)))"

definition markOpenEQ :: "inputs \<Rightarrow> nat \<Rightarrow> ledgerState \<Rightarrow> ledgerState" where
  \<comment> \<open>Lines 380 to 387.\<close>
  "markOpenEQ inp ii st =
     (if openPosition st \<noteq> 0 then
        st\<lparr>openEQIdx := (openEQIdx st)[ii + 1 :=
             foldl (\<lambda>acc e. acc + ((dataIn inp ! (ii + 1 + SHIFT_CLOSE inp) - price e)
                                      * of_int (quantity e) * BIG_POINT inp))
                   (openEQIdx st ! (ii + 1)) (openLedger st)]\<rparr>
      else st)"

definition barStep :: "inputs \<Rightarrow> nat \<Rightarrow> ledgerState \<Rightarrow> error + ledgerState" where
  \<comment> \<open>The body of the loop of line 246.\<close>
  "barStep inp ii st =
     (if sigIn inp ! ii \<noteq> 0 then
        case advanced inp ii st of
          Inl err \<Rightarrow> Inl err
        | Inr st1 \<Rightarrow>
            (case integerTrade inp ii st1 of
               Inl err \<Rightarrow> Inl err
             | Inr st2 \<Rightarrow> Inr (markOpenEQ inp ii st2))
      else Inr (markOpenEQ inp ii st))"

fun barLoop :: "inputs \<Rightarrow> nat list \<Rightarrow> ledgerState \<Rightarrow> error + ledgerState" where
  \<comment> \<open>The loop of line 246 over the bars it visits, stopping at the first error.\<close>
  "barLoop inp [] st = Inr st"
| "barLoop inp (ii # iis) st =
     (case barStep inp ii st of Inl err \<Rightarrow> Inl err | Inr st' \<Rightarrow> barLoop inp iis st')"

subsection \<open>The whole run\<close>

fun scanSignals :: "real list \<Rightarrow> nat \<Rightarrow> nat \<times> bool" where
  \<comment> \<open>The loop of line 219 from index \<open>sigIdx\<close> on: the final \<^verbatim>\<open>sigIdx\<close> and \<^verbatim>\<open>anyTrades\<close>.\<close>
  "scanSignals [] sigIdx = (sigIdx, False)"
| "scanSignals (s # ss) sigIdx =
     (if \<bar>s\<bar> \<ge> 1 then (sigIdx, True) else scanSignals ss (Suc sigIdx))"

definition seedState :: "inputs \<Rightarrow> nat \<Rightarrow> ledgerState" where
  \<comment> \<open>Lines 233 to 241, with the zero-filled output buffers of lines 193 and 194.\<close>
  "seedState inp sigIdx =
     \<lparr>openLedger = [createLineEntry (int sigIdx) (cint (sigIn inp ! sigIdx))
                      (dataIn inp ! (sigIdx + 1))],
      openPosition = cint (sigIn inp ! sigIdx),
      cashIdx = replicate (rowsData inp) 0,
      openEQIdx = replicate (rowsData inp) 0\<rparr>"

definition cleanStep :: "real list \<Rightarrow> nat \<Rightarrow> real list \<Rightarrow> real list" where
  \<comment> \<open>The body of the loop of line 400.\<close>
  "cleanStep c ll oe =
     (if oe ! ll \<noteq> c ! (ll + 1) \<and> oe ! (ll + 1) = 0 \<and> c ! (ll + 1) > 0
      then oe[ll := c ! (ll + 1)] else oe)"

definition cleanOpenEQ :: "nat \<Rightarrow> real list \<Rightarrow> real list \<Rightarrow> real list" where
  "cleanOpenEQ rows c oe = fold (cleanStep c) [1 ..< rows - 1] oe"

definition aggStep ::
  "real list \<Rightarrow> real list \<Rightarrow> nat \<Rightarrow> real \<times> real list \<times> real list \<Rightarrow> real \<times> real list \<times> real list" where
  \<comment> \<open>The body of the loop of line 410 on \<^verbatim>\<open>runSum\<close>, \<^verbatim>\<open>netLiqIdx\<close> and \<^verbatim>\<open>returnsIdx\<close>.\<close>
  "aggStep c oe kk acc =
     (case acc of (runSum, nl, rt) \<Rightarrow>
        let runSum' = runSum + c ! kk;
            nl' = nl[kk := runSum' + oe ! kk];
            rt' = (if kk > 0 then rt[kk := nl' ! kk - nl' ! (kk - 1)] else rt)
        in (runSum', nl', rt'))"

definition aggregate :: "nat \<Rightarrow> real list \<Rightarrow> real list \<Rightarrow> real \<times> real list \<times> real list" where
  "aggregate rows c oe =
     fold (aggStep c oe) [0 ..< rows] (0, replicate rows 0, (replicate rows 0)[0 := 0])"

definition calcProfitLoss :: "inputs \<Rightarrow> error + outputs" where
  "calcProfitLoss inp =
     (let rowsSig = length (sigIn inp) in
      if rowsData inp \<noteq> rowsSig then Inl (ArrayMismatch 163)
      else if colsData inp \<noteq> 2 \<and> colsData inp \<noteq> 4 then Inl (ArrayMismatch 171)
      else
        case scanSignals (sigIn inp) 0 of (sigIdx, anyTrades) \<Rightarrow>
          if anyTrades \<and> sigIdx < rowsSig then
            (case barLoop inp [sigIdx + 1 ..< rowsSig - 1] (seedState inp sigIdx) of
               Inl err \<Rightarrow> Inl err
             | Inr st \<Rightarrow>
                 let oe = cleanOpenEQ (rowsData inp) (cashIdx st) (openEQIdx st) in
                 case aggregate (rowsData inp) (cashIdx st) oe of (runSum, nl, rt) \<Rightarrow>
                   Inr \<lparr>cash = cashIdx st, openEQ = oe, netLiq = nl, returns = rt\<rparr>)
          else
            Inr \<lparr>cash = replicate (rowsData inp) 0,
                 openEQ = replicate (rowsData inp) 0,
                 netLiq = replicate (rowsData inp) 0,
                 returns = replicate (rowsData inp) 0\<rparr>)"

subsection \<open>Predicates on states and signals\<close>

definition ledgerInv :: "ledgerState \<Rightarrow> bool" where
  \<comment> \<open>The ledger sums to the tracked position, and a short or flat position holds short
      lots only (so a flat position has an empty ledger).\<close>
  "ledgerInv st =
     (sumQty (openLedger st) = openPosition st \<and>
      (openPosition st \<le> 0 \<longrightarrow> (\<forall>e \<in> set (openLedger st). quantity e < 0)))"

definition invalidSig :: "real \<Rightarrow> bool" where
  \<comment> \<open>A signal with a fractional part that is not one half in magnitude.\<close>
  "invalidSig s = (fraction s \<and> \<not> knownAdvSig s)"

subsection \<open>Example inputs\<close>

definition exShort :: inputs where
  \<comment> \<open>Two short lots, then a buy of 2 that spans both.\<close>
  "exShort = \<lparr>dataIn = [10, 10, 10, 12, 12, 10, 10, 10, 12, 12], sigIn = [- 1, - 4, 2, 0, 0],
              rowsData = 5, colsData = 2, BIG_POINT = 1, COST = 1\<rparr>"

definition exReverse :: inputs where
  \<comment> \<open>A short position of 50, then a reverse to long 1.\<close>
  "exReverse = \<lparr>dataIn = [10, 10, 12, 12, 10, 10, 12, 12], sigIn = [- 50, 3 / 2, 0, 0],
                rowsData = 4, colsData = 2, BIG_POINT = 1, COST = 0\<rparr>"

definition exReverseLong :: inputs where
  \<comment> \<open>A long position of 7, then a reverse to short 2.\<close>
  "exReverseLong = \<lparr>dataIn = [10, 10, 12, 12, 10, 10, 12, 12], sigIn = [7, - 5 / 2, 0, 0],
                rowsData = 4, colsData = 2, BIG_POINT = 1, COST = 0\<rparr>"

definition exInvalid :: inputs where
  \<comment> \<open>A first signal of 2.3, then a signal of 1.3 on a bar of the loop.\<close>
  "exInvalid = \<lparr>dataIn = [10, 10, 12, 12, 10, 10, 12, 12], sigIn = [23 / 10, 0, 13 / 10, 0],
                rowsData = 4, colsData = 2, BIG_POINT = 1, COST = 0\<rparr>"

definition exUnchecked :: inputs where
  \<comment> \<open>Signals that are not whole and not halves before the first trade, on the first trade and on the final bar.\<close>
  "exUnchecked = \<lparr>dataIn = [10, 10, 12, 12, 10, 10, 12, 13], sigIn = [3 / 10, 23 / 10, 0, 13 / 10],
                rowsData = 4, colsData = 2, BIG_POINT = 1, COST = 0\<rparr>"

definition exLastBar :: inputs where
  \<comment> \<open>The only signal of magnitude 1 or more is on the final bar.\<close>
  "exLastBar = \<lparr>dataIn = [10, 11, 12, 13, 10, 11, 12, 13], sigIn = [0, 1 / 2, 0, 3],
                rowsData = 4, colsData = 2, BIG_POINT = 1, COST = 1\<rparr>"

definition exNarrow :: inputs where
  \<comment> \<open>Two price columns whose second column differs from the first.\<close>
  "exNarrow = \<lparr>dataIn = [10, 11, 12, 14, 10, 11, 13, 15], sigIn = [1, 0, 0, 0],
               rowsData = 4, colsData = 2, BIG_POINT = 1, COST = 0\<rparr>"

definition exLong :: inputs where
  \<comment> \<open>Two long lots of 1 and 4, then a sale of 2: more than the front lot, less than the position.\<close>
  "exLong = \<lparr>dataIn = [10, 11, 12, 14, 15, 10, 11, 12, 13, 16], sigIn = [1, 4, - 2, 0, 0],
             rowsData = 5, colsData = 2, BIG_POINT = 1, COST = 1\<rparr>"

definition exMixed :: inputs where
  \<comment> \<open>Two long lots of 2 and 3, then a sale of 3.\<close>
  "exMixed = \<lparr>dataIn = [10, 11, 12, 14, 15, 10, 11, 12, 13, 16], sigIn = [2, 3, - 3, 0, 0],
              rowsData = 5, colsData = 2, BIG_POINT = 1, COST = 1\<rparr>"

definition exIllegalReverse :: inputs where
  \<comment> \<open>A short position of 50, then the signal -1.5.\<close>
  "exIllegalReverse = \<lparr>dataIn = [10, 10, 12, 12, 10, 10, 12, 12], sigIn = [- 50, - 3 / 2, 0, 0],
                       rowsData = 4, colsData = 2, BIG_POINT = 1, COST = 0\<rparr>"

section \<open>Properties\<close>

subsection \<open>Arithmetic of the helpers\<close>

lemma foldl_quantity:
  "foldl (\<lambda>sumOfQty it. sumOfQty + quantity it) a x = a + sum_list (map quantity x)"
  by (induction x arbitrary: a) simp_all

lemma sumQty_Nil [simp]: "sumQty [] = 0"
  by (simp add: sumQty_def)

lemma sumQty_Cons [simp]: "sumQty (e # es) = quantity e + sumQty es"
  by (simp add: sumQty_def foldl_quantity)

lemma sumQty_append [simp]: "sumQty (xs @ ys) = sumQty xs + sumQty ys"
  by (simp add: sumQty_def foldl_quantity)

lemma foldl_add_sum_list:
  "foldl (\<lambda>acc e. acc + f e) a xs = a + sum_list (map f xs)" for a :: real
  by (induction xs arbitrary: a) simp_all

lemma cint_of_int [simp]: "cint (of_int n) = n"
  by (simp add: cint_def)

lemma cint_le: "s \<le> - 1 \<Longrightarrow> cint s \<le> - 1"
  by (simp add: cint_def ceiling_le_iff)

lemma cint_ge: "1 \<le> s \<Longrightarrow> 1 \<le> cint s"
  by (simp add: cint_def le_floor_iff)

lemma cint_half_up: "0 \<le> X \<Longrightarrow> cint (of_int X + 1 / 2) = X"
proof -
  assume "0 \<le> X"
  then have "0 \<le> (of_int X + 1 / 2 :: real)" by simp
  moreover have "\<lfloor>of_int X + 1 / 2 :: real\<rfloor> = X" by (rule floor_unique) simp_all
  ultimately show ?thesis by (simp add: cint_def)
qed

lemma cint_half_down: "0 \<le> X \<Longrightarrow> cint (- of_int X - 1 / 2) = - X"
proof -
  assume "0 \<le> X"
  then have "\<not> 0 \<le> (- of_int X - 1 / 2 :: real)" by simp
  moreover have "\<lceil>- of_int X - 1 / 2 :: real\<rceil> = - X" by (rule ceiling_unique) simp_all
  ultimately show ?thesis by (simp add: cint_def)
qed

lemma whole_signal: "\<not> fraction s \<Longrightarrow> s = of_int (cint s)"
  by (simp add: fraction_def)

lemma fraction_nonzero: "fraction s \<Longrightarrow> s \<noteq> 0"
  by (auto simp: fraction_def cint_def)

lemma upt_split: "a \<le> i \<Longrightarrow> i < b \<Longrightarrow> [a ..< b] = [a ..< i] @ i # [Suc i ..< b]"
  using upt_add_eq_append [of a i "b - i"] upt_conv_Cons [of i b] by simp

lemma replicate_update_same: "(replicate n x)[i := x] = replicate n x"
  by (cases "i < n") (simp_all add: list_update_same_conv list_update_beyond)

subsection \<open>The partial-liquidation loop\<close>

lemma partialLiq_long:
  "needQty < 0 \<Longrightarrow>
   partialLiq px bp cst needQty (e # es) c =
     Some (e\<lparr>quantity := quantity e + needQty\<rparr> # es,
           c + ((px - price e) * of_int (- needQty) * bp) - (of_int \<bar>needQty\<bar> * cst))"
proof -
  assume "needQty < 0"
  then have "needQty \<noteq> 0" "\<bar>quantity e\<bar> > needQty" by arith+
  then show ?thesis by simp
qed

lemma partialLiq_short:
  "\<forall>e \<in> set led. quantity e < 0 \<Longrightarrow> 0 \<le> needQty \<Longrightarrow> needQty < - sumQty led \<Longrightarrow>
   \<exists>led' c'. partialLiq px bp cst needQty led c = Some (led', c') \<and>
              sumQty led' = sumQty led + needQty \<and> (\<forall>e \<in> set led'. quantity e < 0)"
proof (induction led arbitrary: needQty c)
  case Nil
  then show ?case by simp
next
  case (Cons e es)
  show ?case
  proof (cases "needQty = 0")
    case True
    with Cons.prems show ?thesis by simp
  next
    case nz: False
    show ?thesis
    proof (cases "\<bar>quantity e\<bar> > needQty")
      case True
      with nz Cons.prems show ?thesis by auto
    next
      case False
      from Cons.prems have neg: "quantity e < 0" and rest: "\<forall>x \<in> set es. quantity x < 0"
        by simp_all
      from False neg have ge: "0 \<le> needQty + quantity e" by simp
      from Cons.prems(3) have lt: "needQty + quantity e < - sumQty es" by simp
      from Cons.IH [OF rest ge lt] obtain led' c' where
        "partialLiq px bp cst (needQty + quantity e) es
           (c + ((px - price e) * of_int (- quantity e) * bp) - (of_int \<bar>quantity e\<bar> * cst))
         = Some (led', c')"
        "sumQty led' = sumQty es + (needQty + quantity e)"
        "\<forall>x \<in> set led'. quantity x < 0"
        by blast
      with nz False show ?thesis by simp
    qed
  qed
qed

subsection \<open>The advanced handling of a bar\<close>

lemma advanced_cases:
  "advanced inp ii st = Inr st1 \<Longrightarrow>
   st1 = st \<and> (fraction (sigIn inp ! ii) \<longrightarrow> additiveTrade (openPosition st) (sigIn inp ! ii))
   \<or> fraction (sigIn inp ! ii) \<and> knownAdvSig (sigIn inp ! ii) \<and> openLedger st1 = [] \<and> openPosition st1 = 0"
  by (auto simp: advanced_def Let_def split: if_splits)

lemma advanced_total:
  "\<not> invalidSig (sigIn inp ! ii) \<Longrightarrow> \<exists>st1. advanced inp ii st = Inr st1"
  by (auto simp: advanced_def Let_def invalidSig_def knownAdvSig_def)

lemma advanced_invalid:
  "invalidSig (sigIn inp ! ii) \<Longrightarrow>
   advanced inp ii st = Inl (FractionUnknown (sigIn inp ! ii) 295)"
  by (simp add: advanced_def Let_def invalidSig_def)

lemma flat_full: "\<not> additiveTrade 0 s \<Longrightarrow> fullLiquidation 0 s"
  by (auto simp: additive_def fullLiquidation_def cint_def)

lemma partial_whole:
  "advanced inp ii st = Inr st1 \<Longrightarrow>
   \<not> additiveTrade (openPosition st1) (sigIn inp ! ii) \<Longrightarrow>
   \<not> fullLiquidation (openPosition st1) (sigIn inp ! ii) \<Longrightarrow>
   \<not> fraction (sigIn inp ! ii)"
  by (auto dest!: advanced_cases dest: flat_full)

subsection \<open>The ledger invariant\<close>

lemma advanced_inv: "ledgerInv st \<Longrightarrow> advanced inp ii st = Inr st1 \<Longrightarrow> ledgerInv st1"
  by (auto simp: ledgerInv_def dest!: advanced_cases)

lemma integerTrade_inv:
  assumes inv: "ledgerInv st"
    and nz: "sigIn inp ! ii \<noteq> 0"
    and whole: "\<not> additiveTrade (openPosition st) (sigIn inp ! ii) \<Longrightarrow>
                \<not> fullLiquidation (openPosition st) (sigIn inp ! ii) \<Longrightarrow>
                \<not> fraction (sigIn inp ! ii)"
  shows "\<exists>st'. integerTrade inp ii st = Inr st' \<and> ledgerInv st'"
proof -
  let ?s = "sigIn inp ! ii"
  let ?pos = "openPosition st"
  from inv have sum: "sumQty (openLedger st) = ?pos"
    and neg: "?pos \<le> 0 \<Longrightarrow> \<forall>e \<in> set (openLedger st). quantity e < 0"
    by (simp_all add: ledgerInv_def)
  show ?thesis
  proof (cases "additiveTrade ?pos ?s")
    case True
    then consider "?pos \<le> 0" "?s \<le> - 1" | "?pos \<ge> 0" "?s \<ge> 1"
      by (auto simp: additiveTrade_def)
    then show ?thesis
    proof cases
      case 1
      from cint_le [OF 1(2)] have "cint ?s \<le> - 1" .
      with True 1 sum neg show ?thesis
        by (auto simp: integerTrade_def Let_def ledgerInv_def createLineEntry_def)
    next
      case 2
      from cint_ge [OF 2(2)] have "1 \<le> cint ?s" .
      with True 2 sum show ?thesis
        by (auto simp: integerTrade_def Let_def ledgerInv_def createLineEntry_def)
    qed
  next
    case notadd: False
    show ?thesis
    proof (cases "fullLiquidation ?pos ?s")
      case True
      with notadd show ?thesis
        by (auto simp: integerTrade_def Let_def ledgerInv_def createLineEntry_def)
    next
      case notfull: False
      from whole [OF notadd notfull] have s: "?s = of_int (cint ?s)"
        by (rule whole_signal)
      define n where "n = cint ?s"
      from s have sn: "?s = of_int n" by (simp add: n_def)
      from nz sn have n0: "n \<noteq> 0" by auto
      from notfull sn have small: "\<bar>n\<bar> < \<bar>?pos\<bar>"
        by (simp add: fullLiquidation_def flip: of_int_abs)
      have pos': "cint (of_int ?pos + ?s) = ?pos + n"
        by (simp add: sn flip: of_int_add)
      show ?thesis
      proof (cases "?pos > 0")
        case True
        with notadd sn have "n < 1"
          by (auto simp: additiveTrade_def)
        with n0 have nneg: "n < 0" by simp
        from True sum obtain e es where led: "openLedger st = e # es"
          by (cases "openLedger st") auto
        from partialLiq_long [OF nneg]
        have "partialLiq (dataIn inp ! (ii + 1)) (BIG_POINT inp) (COST inp) n (e # es)
                (cashIdx st ! (ii + 1))
              = Some (e\<lparr>quantity := quantity e + n\<rparr> # es,
                      cashIdx st ! (ii + 1)
                        + ((dataIn inp ! (ii + 1) - price e) * of_int (- n) * BIG_POINT inp)
                        - (of_int \<bar>n\<bar> * COST inp))" .
        with notadd notfull led sum True small nneg pos' show ?thesis
          by (simp add: integerTrade_def Let_def ledgerInv_def flip: n_def)
      next
        case False
        with small have pneg: "?pos < 0" by simp
        with notadd sn have "- 1 < n"
          by (auto simp: additiveTrade_def)
        with n0 have npos: "0 \<le> n" by simp
        from small pneg npos sum have lt: "n < - sumQty (openLedger st)" by simp
        from pneg neg have allneg: "\<forall>e \<in> set (openLedger st). quantity e < 0" by simp
        from partialLiq_short [OF allneg npos lt] obtain led' c' where
          pl: "partialLiq (dataIn inp ! (ii + 1)) (BIG_POINT inp) (COST inp) n (openLedger st)
                 (cashIdx st ! (ii + 1)) = Some (led', c')"
          and sum': "sumQty led' = sumQty (openLedger st) + n"
          and neg': "\<forall>e \<in> set led'. quantity e < 0"
          by blast
        with notadd notfull sum pos' show ?thesis
          by (simp add: integerTrade_def Let_def ledgerInv_def flip: n_def)
      qed
    qed
  qed
qed

lemma markOpenEQ_ledger [simp]:
  "openLedger (markOpenEQ inp ii st) = openLedger st"
  "openPosition (markOpenEQ inp ii st) = openPosition st"
  "cashIdx (markOpenEQ inp ii st) = cashIdx st"
  by (simp_all add: markOpenEQ_def)

lemma markOpenEQ_inv: "ledgerInv (markOpenEQ inp ii st) = ledgerInv st"
  by (simp add: ledgerInv_def)

lemma barStep_valid:
  assumes inv: "ledgerInv st" and ok: "\<not> invalidSig (sigIn inp ! ii)"
  shows "\<exists>st'. barStep inp ii st = Inr st' \<and> ledgerInv st'"
proof (cases "sigIn inp ! ii = 0")
  case True
  with inv show ?thesis by (simp add: barStep_def markOpenEQ_inv)
next
  case False
  from advanced_total [OF ok] obtain st1 where adv: "advanced inp ii st = Inr st1" ..
  from advanced_inv [OF inv adv] have inv1: "ledgerInv st1" .
  from integerTrade_inv [OF inv1 False partial_whole [OF adv]]
  obtain st2 where "integerTrade inp ii st1 = Inr st2" "ledgerInv st2" by blast
  with False adv show ?thesis by (simp add: barStep_def markOpenEQ_inv)
qed

lemma barStep_invalid:
  "invalidSig (sigIn inp ! ii) \<Longrightarrow>
   barStep inp ii st = Inl (FractionUnknown (sigIn inp ! ii) 295)"
  by (simp add: barStep_def advanced_invalid fraction_nonzero invalidSig_def)

lemma barStep_inv: "ledgerInv st \<Longrightarrow> barStep inp ii st = Inr st' \<Longrightarrow> ledgerInv st'"
proof (cases "invalidSig (sigIn inp ! ii)")
  case True
  assume "barStep inp ii st = Inr st'"
  with barStep_invalid [OF True, of st] show ?thesis by simp
next
  case False
  assume "ledgerInv st" "barStep inp ii st = Inr st'"
  with barStep_valid [OF _ False, of st] show ?thesis by auto
qed

lemma barLoop_inv: "ledgerInv st \<Longrightarrow> barLoop inp iis st = Inr st' \<Longrightarrow> ledgerInv st'"
proof (induction iis arbitrary: st)
  case Nil
  then show ?case by simp
next
  case (Cons ii iis)
  then show ?case
    by (auto split: sum.splits dest: barStep_inv)
qed

lemma barLoop_append:
  "barLoop inp (xs @ ys) st =
     (case barLoop inp xs st of Inl err \<Rightarrow> Inl err | Inr st' \<Rightarrow> barLoop inp ys st')"
  by (induction xs arbitrary: st) (simp_all split: sum.splits)

lemma barLoop_valid:
  "ledgerInv st \<Longrightarrow> \<forall>m \<in> set iis. \<not> invalidSig (sigIn inp ! m) \<Longrightarrow>
   \<exists>st'. barLoop inp iis st = Inr st' \<and> ledgerInv st'"
proof (induction iis arbitrary: st)
  case Nil
  then show ?case by simp
next
  case (Cons ii iis)
  from Cons.prems have "\<not> invalidSig (sigIn inp ! ii)" by simp
  from barStep_valid [OF Cons.prems(1) this] obtain st1 where
    st1: "barStep inp ii st = Inr st1" "ledgerInv st1" by blast
  from Cons.prems have "\<forall>m \<in> set iis. \<not> invalidSig (sigIn inp ! m)" by simp
  from Cons.IH [OF st1(2) this] st1(1) show ?case by simp
qed

lemma barLoop_invalid:
  assumes inv: "ledgerInv st"
    and pre: "\<forall>m \<in> set pre. \<not> invalidSig (sigIn inp ! m)"
    and bad: "invalidSig (sigIn inp ! i)"
  shows "barLoop inp (pre @ i # post) st = Inl (FractionUnknown (sigIn inp ! i) 295)"
proof -
  from barLoop_valid [OF inv pre] obtain st1 where "barLoop inp pre st = Inr st1" by blast
  with barStep_invalid [OF bad, of st1] show ?thesis by (simp add: barLoop_append)
qed

lemma scanSignals_found:
  "scanSignals ss k = (i, True) \<Longrightarrow>
   k \<le> i \<and> i - k < length ss \<and> \<bar>ss ! (i - k)\<bar> \<ge> 1 \<and> (\<forall>j < i - k. \<bar>ss ! j\<bar> < 1)"
proof (induction ss arbitrary: k)
  case Nil
  then show ?case by simp
next
  case (Cons s ss)
  show ?case
  proof (cases "\<bar>s\<bar> \<ge> 1")
    case True
    with Cons.prems show ?thesis by simp
  next
    case False
    with Cons.prems have "scanSignals ss (Suc k) = (i, True)" by simp
    from Cons.IH [OF this] have *: "Suc k \<le> i" "i - Suc k < length ss"
      "\<bar>ss ! (i - Suc k)\<bar> \<ge> 1" "\<forall>j < i - Suc k. \<bar>ss ! j\<bar> < 1" by simp_all
    from *(1) have ik: "i - k = Suc (i - Suc k)" by simp
    have "\<forall>j < i - k. \<bar>(s # ss) ! j\<bar> < 1"
    proof (intro allI impI)
      fix j assume "j < i - k"
      with False *(4) ik show "\<bar>(s # ss) ! j\<bar> < 1" by (cases j) auto
    qed
    with * ik show ?thesis by simp
  qed
qed

lemma scanSignals_none:
  "scanSignals ss k = (i, False) \<Longrightarrow> i = k + length ss \<and> (\<forall>s \<in> set ss. \<bar>s\<bar> < 1)"
proof (induction ss arbitrary: k)
  case Nil
  then show ?case by simp
next
  case (Cons s ss)
  from Cons.prems have small: "\<not> \<bar>s\<bar> \<ge> 1" and rest: "scanSignals ss (Suc k) = (i, False)"
    by (auto split: if_splits)
  from Cons.IH [OF rest] small show ?case by simp
qed

lemma seed_inv:
  assumes "\<bar>sigIn inp ! sigIdx\<bar> \<ge> 1"
  shows "ledgerInv (seedState inp sigIdx)"
proof -
  from assms consider "sigIn inp ! sigIdx \<le> - 1" | "1 \<le> sigIn inp ! sigIdx" by linarith
  then show ?thesis
  proof cases
    case 1
    from cint_le [OF this] show ?thesis
      by (simp add: ledgerInv_def seedState_def createLineEntry_def)
  next
    case 2
    from cint_ge [OF this] show ?thesis
      by (simp add: ledgerInv_def seedState_def createLineEntry_def)
  qed
qed

section \<open>The claims\<close>

subsection \<open>FIFO consumption (C1)\<close>

text \<open>
  Claim C1 at a failing input. On a long position \<^verbatim>\<open>needQty\<close> is negative, so the comparison
  of line 343 always succeeds: a sale of 2 against the lots 1 and 4 takes both units from
  the front lot, which stays in the ledger with quantity -1, and the second lot is untouched.
\<close>

theorem fifo_long_front_lot_overdrawn:
  "barLoop exLong [1 ..< 2] (seedState exLong 0) =
     Inr \<lparr>openLedger = [\<lparr>index = 0, quantity = 1, price = 11\<rparr>,
                         \<lparr>index = 1, quantity = 4, price = 12\<rparr>],
          openPosition = 5, cashIdx = [0, 0, 0, 0, 0], openEQIdx = [0, 0, 1, 0, 0]\<rparr>
   \<and> sigIn exLong ! 2 = - 2
   \<and> barStep exLong 2
        \<lparr>openLedger = [\<lparr>index = 0, quantity = 1, price = 11\<rparr>,
                        \<lparr>index = 1, quantity = 4, price = 12\<rparr>],
         openPosition = 5, cashIdx = [0, 0, 0, 0, 0], openEQIdx = [0, 0, 1, 0, 0]\<rparr> =
     Inr \<lparr>openLedger = [\<lparr>index = 0, quantity = - 1, price = 11\<rparr>,
                         \<lparr>index = 1, quantity = 4, price = 12\<rparr>],
          openPosition = 3, cashIdx = [0, 0, 0, 4, 0], openEQIdx = [0, 0, 1, 2, 0]\<rparr>"
  by code_simp

subsection \<open>Cash of a consumption (C2)\<close>

text \<open>
  Claim C2 at a failing input. A buy of 2 against the short lots -1 and -4 (entry 10,
  execution 12, one unit of commission each) removes the first lot through line 357, which
  multiplies by the negated quantity: the bar books 1 - 3 = -2 where the formula of the
  claim gives -3 - 3 = -6.
\<close>

theorem short_full_lot_cash_sign:
  "barLoop exShort [1 ..< 2] (seedState exShort 0) =
     Inr \<lparr>openLedger = [\<lparr>index = 0, quantity = - 1, price = 10\<rparr>,
                         \<lparr>index = 1, quantity = - 4, price = 10\<rparr>],
          openPosition = - 5, cashIdx = [0, 0, 0, 0, 0], openEQIdx = [0, 0, 0, 0, 0]\<rparr>
   \<and> sigIn exShort ! 2 = 2 \<and> dataIn exShort ! (2 + 1) = 12
   \<and> partialLiq 12 (BIG_POINT exShort) (COST exShort) 2
        [\<lparr>index = 0, quantity = - 1, price = 10\<rparr>, \<lparr>index = 1, quantity = - 4, price = 10\<rparr>] 0
       = Some ([\<lparr>index = 1, quantity = - 3, price = 10\<rparr>], - 2)
   \<and> barStep exShort 2
        \<lparr>openLedger = [\<lparr>index = 0, quantity = - 1, price = 10\<rparr>,
                        \<lparr>index = 1, quantity = - 4, price = 10\<rparr>],
         openPosition = - 5, cashIdx = [0, 0, 0, 0, 0], openEQIdx = [0, 0, 0, 0, 0]\<rparr> =
     Inr \<lparr>openLedger = [\<lparr>index = 1, quantity = - 3, price = 10\<rparr>],
          openPosition = - 3, cashIdx = [0, 0, 0, - 2, 0], openEQIdx = [0, 0, 0, - 6, 0]\<rparr>
   \<and> ((12 - 10) * of_int (- 1) * BIG_POINT exShort - of_int \<bar>- 1\<bar> * COST exShort)
       + ((12 - 10) * of_int (- 1) * BIG_POINT exShort - of_int \<bar>- 1\<bar> * COST exShort) = - 6"
  by code_simp

subsection \<open>Reverse on the side already held (C3)\<close>

text \<open>
  Claim C3 at a failing input. With position -50 the signal -1.5 is additive: the run adds a
  short lot of 1, reaches position -51 and returns its four series, with no error.
\<close>

theorem same_side_reverse_accepted:
  "openPosition (seedState exIllegalReverse 0) = - 50
   \<and> sigIn exIllegalReverse ! 1 = - 3 / 2
   \<and> barStep exIllegalReverse 1 (seedState exIllegalReverse 0) =
       Inr \<lparr>openLedger = [\<lparr>index = 0, quantity = - 50, price = 10\<rparr>,
                           \<lparr>index = 1, quantity = - 1, price = 12\<rparr>],
            openPosition = - 51, cashIdx = [0, 0, 0, 0], openEQIdx = [0, 0, - 100, 0]\<rparr>
   \<and> calcProfitLoss exIllegalReverse =
       Inr \<lparr>cash = [0, 0, 0, 0], openEQ = [0, 0, - 100, - 100],
            netLiq = [0, 0, - 100, - 100], returns = [0, 0, - 100, 0]\<rparr>"
  by code_simp

subsection \<open>Invalid fractional signals (C4)\<close>

text \<open>
  Claim C4, as amended. When a bar of the loop (after the first trade, before the final bar)
  carries a signal whose fractional part is not one half in magnitude, the run aborts at the
  first such bar with the error of line 295, which carries that signal value; no output is
  produced.
\<close>

theorem invalid_fraction_aborts:
  assumes shape: "rowsData inp = length (sigIn inp)" "colsData inp = 2 \<or> colsData inp = 4"
    and found: "scanSignals (sigIn inp) 0 = (sigIdx, True)"
    and range: "sigIdx < j" "j + 1 < length (sigIn inp)"
    and bad: "invalidSig (sigIn inp ! j)"
  shows "\<exists>i. sigIdx < i \<and> i \<le> j \<and> invalidSig (sigIn inp ! i)
             \<and> (\<forall>m. sigIdx < m \<and> m < i \<longrightarrow> \<not> invalidSig (sigIn inp ! m))
             \<and> calcProfitLoss inp = Inl (FractionUnknown (sigIn inp ! i) 295)"
proof -
  define i where "i = (LEAST m. sigIdx < m \<and> invalidSig (sigIn inp ! m))"
  from range(1) bad have ex: "sigIdx < j \<and> invalidSig (sigIn inp ! j)" by simp
  from LeastI [of "\<lambda>m. sigIdx < m \<and> invalidSig (sigIn inp ! m)", OF ex]
  have i1: "sigIdx < i" and i2: "invalidSig (sigIn inp ! i)" by (simp_all add: i_def)
  from Least_le [of "\<lambda>m. sigIdx < m \<and> invalidSig (sigIn inp ! m)", OF ex]
  have ij: "i \<le> j" by (simp add: i_def)
  have first: "\<not> invalidSig (sigIn inp ! m)" if "sigIdx < m" "m < i" for m
    using not_less_Least [of m "\<lambda>m. sigIdx < m \<and> invalidSig (sigIn inp ! m)"] that
    by (simp add: i_def)
  from scanSignals_found [OF found] have "\<bar>sigIn inp ! sigIdx\<bar> \<ge> 1" "sigIdx < length (sigIn inp)"
    by simp_all
  then have inv: "ledgerInv (seedState inp sigIdx)" and lt: "sigIdx < length (sigIn inp)"
    by (simp_all add: seed_inv)
  from i1 ij range(2) have split:
    "[sigIdx + 1 ..< length (sigIn inp) - 1]
       = [sigIdx + 1 ..< i] @ i # [Suc i ..< length (sigIn inp) - 1]"
    by (intro upt_split) simp_all
  have "\<forall>m \<in> set [sigIdx + 1 ..< i]. \<not> invalidSig (sigIn inp ! m)"
    using first by simp
  from barLoop_invalid [OF inv this i2]
  have "barLoop inp [sigIdx + 1 ..< length (sigIn inp) - 1] (seedState inp sigIdx)
          = Inl (FractionUnknown (sigIn inp ! i) 295)"
    by (simp only: split)
  with shape found lt have "calcProfitLoss inp = Inl (FractionUnknown (sigIn inp ! i) 295)"
    by (auto simp: calcProfitLoss_def Let_def)
  with i1 ij i2 first show ?thesis by blast
qed

theorem invalid_fraction_aborts_witness:
  "calcProfitLoss exInvalid = Inl (FractionUnknown (13 / 10) 295)"
proof -
  have shape: "rowsData exInvalid = length (sigIn exInvalid)"
    "colsData exInvalid = 2 \<or> colsData exInvalid = 4"
    by (simp_all add: exInvalid_def)
  have found: "scanSignals (sigIn exInvalid) 0 = (0, True)" by code_simp
  have range: "0 < (2::nat)" "2 + 1 < length (sigIn exInvalid)"
    by (simp_all add: exInvalid_def)
  have bad: "invalidSig (sigIn exInvalid ! 2)" by code_simp
  have good: "\<not> invalidSig (sigIn exInvalid ! 1)" by code_simp
  from invalid_fraction_aborts [OF shape found range bad] obtain i where
    i: "0 < i" "i \<le> 2" "invalidSig (sigIn exInvalid ! i)"
    and res: "calcProfitLoss exInvalid = Inl (FractionUnknown (sigIn exInvalid ! i) 295)"
    by blast
  from i(1,2) have "i = 1 \<or> i = 2" by arith
  with i(3) good have "i = 2" by blast
  with res show ?thesis by (simp add: exInvalid_def)
qed

text \<open>
  Claim C4 as stated fails: such signals before the first trade, on the first trade and on
  the final bar are not checked, and the run returns its four series.
\<close>

theorem invalid_fraction_unchecked_counterexample:
  "invalidSig (sigIn exUnchecked ! 0) \<and> invalidSig (sigIn exUnchecked ! 1)
   \<and> invalidSig (sigIn exUnchecked ! 3)
   \<and> calcProfitLoss exUnchecked =
       Inr \<lparr>cash = [0, 0, 0, 0], openEQ = [0, 0, 0, 2], netLiq = [0, 0, 0, 2],
            returns = [0, 0, 0, 2]\<rparr>"
  by code_simp

subsection \<open>Signs of the lots (C5)\<close>

text \<open>
  Claim C5 at a failing input. After a sale of 3 against the long lots 2 and 3 the ledger
  holds a lot of -1 and a lot of 3 while the position is 2.
\<close>

theorem mixed_sign_ledger_reached:
  "scanSignals (sigIn exMixed) 0 = (0, True)
   \<and> barLoop exMixed [0 + 1 ..< 3] (seedState exMixed 0) =
     Inr \<lparr>openLedger = [\<lparr>index = 0, quantity = - 1, price = 11\<rparr>,
                         \<lparr>index = 1, quantity = 3, price = 12\<rparr>],
          openPosition = 2, cashIdx = [0, 0, 0, 6, 0], openEQIdx = [0, 0, 2, 1, 0]\<rparr>"
  by code_simp

subsection \<open>Conservation (C6)\<close>

text \<open>
  Claim C6. After the seed and after every bar of the loop, the sum of the quantities of the
  lots in the ledger is the tracked \<^verbatim>\<open>openPosition\<close>: for the state \<open>st\<close> reached from the
  seed after the bars before \<open>k\<close> (the seed itself when there are none), for the state in
  the middle of bar \<open>k\<close> after a close-all or reverse, and for the state after bar \<open>k\<close>.
\<close>

theorem ledger_conservation:
  assumes found: "scanSignals (sigIn inp) 0 = (sigIdx, True)"
    and run: "barLoop inp [sigIdx + 1 ..< k] (seedState inp sigIdx) = Inr st"
  shows "sumQty (openLedger st) = openPosition st
         \<and> (\<forall>st1. advanced inp k st = Inr st1 \<longrightarrow> sumQty (openLedger st1) = openPosition st1)
         \<and> (\<forall>st'. barStep inp k st = Inr st' \<longrightarrow> sumQty (openLedger st') = openPosition st')"
proof -
  from scanSignals_found [OF found] have "\<bar>sigIn inp ! sigIdx\<bar> \<ge> 1" by simp
  then have "ledgerInv (seedState inp sigIdx)" by (rule seed_inv)
  from barLoop_inv [OF this run] have inv: "ledgerInv st" .
  have "ledgerInv st1" if "advanced inp k st = Inr st1" for st1
    using advanced_inv [OF inv that] .
  moreover have "ledgerInv st'" if "barStep inp k st = Inr st'" for st'
    using barStep_inv [OF inv that] .
  ultimately show ?thesis using inv by (simp add: ledgerInv_def)
qed

theorem ledger_conservation_witness:
  "scanSignals (sigIn exShort) 0 = (0, True)
   \<and> barLoop exShort [0 + 1 ..< 3] (seedState exShort 0) =
       Inr \<lparr>openLedger = [\<lparr>index = 1, quantity = - 3, price = 10\<rparr>], openPosition = - 3,
            cashIdx = [0, 0, 0, - 2, 0], openEQIdx = [0, 0, 0, - 6, 0]\<rparr>
   \<and> sumQty [\<lparr>index = 1, quantity = - 3, price = 10\<rparr>] = - 3"
proof -
  have h1: "scanSignals (sigIn exShort) 0 = (0, True)" by code_simp
  have h2: "barLoop exShort [0 + 1 ..< 3] (seedState exShort 0) =
       Inr \<lparr>openLedger = [\<lparr>index = 1, quantity = - 3, price = 10\<rparr>], openPosition = - 3,
            cashIdx = [0, 0, 0, - 2, 0], openEQIdx = [0, 0, 0, - 6, 0]\<rparr>" by code_simp
  from ledger_conservation [OF h1 h2] h1 h2 show ?thesis by simp
qed

subsection \<open>Reverse symmetry (C7)\<close>

lemma barStep_reverse:
  assumes sig: "sigIn inp ! ii = s" and fr: "fraction s" and kn: "knownAdvSig s"
    and na: "\<not> additiveTrade (openPosition st) s" and ad: "additiveTrade 0 s"
  shows "barStep inp ii st =
     Inr (markOpenEQ inp ii
       (st\<lparr>cashIdx := (cashIdx st)[ii + 1 :=
               liquidate (dataIn inp ! (ii + 1)) (BIG_POINT inp) (COST inp)
                 (openLedger st) (cashIdx st ! (ii + 1))],
           openLedger := [createLineEntry (int ii) (cint s) (dataIn inp ! (ii + 1))],
           openPosition := cint s\<rparr>))"
proof -
  from fr have nz: "s \<noteq> 0" by (rule fraction_nonzero)
  from kn have half: "\<bar>s - of_int (cint s)\<bar> = 1 / 2" by (simp add: knownAdvSig_def)
  from fr kn na half have adv: "advanced inp ii st =
      Inr (st\<lparr>cashIdx := (cashIdx st)[ii + 1 :=
               liquidate (dataIn inp ! (ii + 1)) (BIG_POINT inp) (COST inp)
                 (openLedger st) (cashIdx st ! (ii + 1))],
            openLedger := [], openPosition := 0\<rparr>)"
    by (simp add: advanced_def sig)
  from nz ad show ?thesis
    by (simp add: barStep_def adv sig integerTrade_def Let_def)
qed

lemma reverse_to_long:
  assumes short: "openPosition st < 0" and sig: "sigIn inp ! ii = of_int X + 1 / 2" and X: "1 \<le> X"
  shows "barStep inp ii st =
     Inr (markOpenEQ inp ii
       (st\<lparr>cashIdx := (cashIdx st)[ii + 1 :=
               liquidate (dataIn inp ! (ii + 1)) (BIG_POINT inp) (COST inp)
                 (openLedger st) (cashIdx st ! (ii + 1))],
           openLedger := [createLineEntry (int ii) X (dataIn inp ! (ii + 1))],
           openPosition := X\<rparr>))"
proof -
  from X have c: "cint (of_int X + 1 / 2) = X" by (simp add: cint_half_up)
  have fr: "fraction (of_int X + 1 / 2)" by (simp add: fraction_def c)
  have kn: "knownAdvSig (of_int X + 1 / 2)" by (simp add: knownAdvSig_def c)
  from short X have na: "\<not> additiveTrade (openPosition st) (of_int X + 1 / 2)"
    by (simp add: additiveTrade_def)
  from X have ad: "additiveTrade 0 (of_int X + 1 / 2)" by (simp add: additiveTrade_def)
  from barStep_reverse [OF sig fr kn na ad] show ?thesis by (simp only: c)
qed

lemma reverse_to_short:
  assumes long: "openPosition st > 0" and sig: "sigIn inp ! ii = - of_int X - 1 / 2" and X: "1 \<le> X"
  shows "barStep inp ii st =
     Inr (markOpenEQ inp ii
       (st\<lparr>cashIdx := (cashIdx st)[ii + 1 :=
               liquidate (dataIn inp ! (ii + 1)) (BIG_POINT inp) (COST inp)
                 (openLedger st) (cashIdx st ! (ii + 1))],
           openLedger := [createLineEntry (int ii) (- X) (dataIn inp ! (ii + 1))],
           openPosition := - X\<rparr>))"
proof -
  from X have c: "cint (- of_int X - 1 / 2) = - X" by (simp add: cint_half_down)
  have fr: "fraction (- of_int X - 1 / 2)" by (simp add: fraction_def c)
  have kn: "knownAdvSig (- of_int X - 1 / 2)" by (simp add: knownAdvSig_def c)
  from long X have na: "\<not> additiveTrade (openPosition st) (- of_int X - 1 / 2)"
    by (simp add: additiveTrade_def)
  from X have ad: "additiveTrade 0 (- of_int X - 1 / 2)" by (simp add: additiveTrade_def)
  from barStep_reverse [OF sig fr kn na ad] show ?thesis by (simp only: c)
qed

text \<open>
  Claim C7. On a short position a signal \<open>X.5\<close> with \<open>X \<ge> 1\<close> liquidates every lot into
  \<^verbatim>\<open>cashIdx[ii+1]\<close> and leaves the single lot \<open>+X\<close>, so the position is \<open>+X\<close>; on a long
  position a signal \<open>-X.5\<close> leaves the position \<open>-X\<close> in the same way.
\<close>

theorem reverse_symmetry:
  "(openPosition st < 0 \<and> sigIn inp ! ii = of_int X + 1 / 2 \<and> 1 \<le> X \<longrightarrow>
      (\<exists>st'. barStep inp ii st = Inr st' \<and> openPosition st' = X
             \<and> openLedger st' = [createLineEntry (int ii) X (dataIn inp ! (ii + 1))]
             \<and> cashIdx st' = (cashIdx st)[ii + 1 :=
                  liquidate (dataIn inp ! (ii + 1)) (BIG_POINT inp) (COST inp)
                    (openLedger st) (cashIdx st ! (ii + 1))]))
   \<and> (openPosition st > 0 \<and> sigIn inp ! ii = - of_int X - 1 / 2 \<and> 1 \<le> X \<longrightarrow>
      (\<exists>st'. barStep inp ii st = Inr st' \<and> openPosition st' = - X
             \<and> openLedger st' = [createLineEntry (int ii) (- X) (dataIn inp ! (ii + 1))]
             \<and> cashIdx st' = (cashIdx st)[ii + 1 :=
                  liquidate (dataIn inp ! (ii + 1)) (BIG_POINT inp) (COST inp)
                    (openLedger st) (cashIdx st ! (ii + 1))]))"
  by (simp add: reverse_to_long reverse_to_short)

theorem reverse_symmetry_witness:
  "openPosition (seedState exReverse 0) < 0 \<and> sigIn exReverse ! 1 = of_int 1 + 1 / 2
   \<and> (\<exists>st'. barStep exReverse 1 (seedState exReverse 0) = Inr st' \<and> openPosition st' = 1
            \<and> openLedger st' = [createLineEntry 1 1 12])
   \<and> openPosition (seedState exReverseLong 0) > 0 \<and> sigIn exReverseLong ! 1 = - of_int 2 - 1 / 2
   \<and> (\<exists>st'. barStep exReverseLong 1 (seedState exReverseLong 0) = Inr st'
            \<and> openPosition st' = - 2 \<and> openLedger st' = [createLineEntry 1 (- 2) 12])"
proof -
  have s1: "openPosition (seedState exReverse 0) < 0" by code_simp
  have s2: "sigIn exReverse ! 1 = of_int 1 + 1 / 2" by (simp add: exReverse_def)
  have p1: "dataIn exReverse ! (1 + 1) = 12" by (simp add: exReverse_def)
  have l1: "openPosition (seedState exReverseLong 0) > 0" by code_simp
  have l2: "sigIn exReverseLong ! 1 = - of_int 2 - 1 / 2" by (simp add: exReverseLong_def)
  have p2: "dataIn exReverseLong ! (1 + 1) = 12" by (simp add: exReverseLong_def)
  from reverse_symmetry [where st = "seedState exReverse 0" and inp = exReverse and ii = 1
      and X = 1] s1 s2 p1
  have a: "\<exists>st'. barStep exReverse 1 (seedState exReverse 0) = Inr st' \<and> openPosition st' = 1
            \<and> openLedger st' = [createLineEntry 1 1 12]"
    by auto
  from reverse_symmetry [where st = "seedState exReverseLong 0" and inp = exReverseLong
      and ii = 1 and X = 2] l1 l2 p2
  have b: "\<exists>st'. barStep exReverseLong 1 (seedState exReverseLong 0) = Inr st'
            \<and> openPosition st' = - 2 \<and> openLedger st' = [createLineEntry 1 (- 2) 12]"
    by auto
  from s1 s2 l1 l2 a b show ?thesis by blast
qed

subsection \<open>Runs without a trade (C8)\<close>

lemma cleanStep_zero:
  "ll + 1 < rows \<Longrightarrow> cleanStep (replicate rows 0) ll oe = oe"
  by (simp add: cleanStep_def)

lemma fold_cleanStep_zero:
  "\<forall>ll \<in> set lls. ll + 1 < rows \<Longrightarrow> fold (cleanStep (replicate rows 0)) lls oe = oe"
  by (induction lls arbitrary: oe) (simp_all add: cleanStep_zero)

lemma cleanOpenEQ_zero: "cleanOpenEQ rows (replicate rows 0) oe = oe"
  unfolding cleanOpenEQ_def by (rule fold_cleanStep_zero) auto

lemma aggStep_zero:
  "kk < rows \<Longrightarrow>
   aggStep (replicate rows 0) (replicate rows 0) kk (0, replicate rows 0, replicate rows 0)
     = (0, replicate rows 0, replicate rows 0)"
  by (simp add: aggStep_def Let_def replicate_update_same)

lemma fold_aggStep_zero:
  "\<forall>kk \<in> set ks. kk < rows \<Longrightarrow>
   fold (aggStep (replicate rows 0) (replicate rows 0)) ks
     (0, replicate rows 0, replicate rows 0) = (0, replicate rows 0, replicate rows 0)"
  by (induction ks) (simp_all add: aggStep_zero)

lemma aggregate_zero:
  "aggregate rows (replicate rows 0) (replicate rows 0)
     = (0, replicate rows 0, replicate rows 0)"
  by (simp add: aggregate_def replicate_update_same fold_aggStep_zero)

text \<open>
  Claim C8. When no signal before the final bar has magnitude 1 or more, the run raises no
  error and its four series are zero at every row of the price input.
\<close>

theorem no_trade_zero_output:
  assumes shape: "rowsData inp = length (sigIn inp)" "colsData inp = 2 \<or> colsData inp = 4"
    and quiet: "\<forall>i. i + 1 < length (sigIn inp) \<longrightarrow> \<bar>sigIn inp ! i\<bar> < 1"
  shows "calcProfitLoss inp =
           Inr \<lparr>cash = replicate (rowsData inp) 0, openEQ = replicate (rowsData inp) 0,
                netLiq = replicate (rowsData inp) 0, returns = replicate (rowsData inp) 0\<rparr>"
proof -
  obtain sigIdx anyTrades where scan: "scanSignals (sigIn inp) 0 = (sigIdx, anyTrades)"
    by (cases "scanSignals (sigIn inp) 0")
  show ?thesis
  proof (cases anyTrades)
    case False
    with shape scan show ?thesis by (auto simp: calcProfitLoss_def)
  next
    case True
    with scan scanSignals_found [of "sigIn inp" 0 sigIdx]
    have lt: "sigIdx < length (sigIn inp)" and big: "\<bar>sigIn inp ! sigIdx\<bar> \<ge> 1" by simp_all
    from quiet big have "\<not> sigIdx + 1 < length (sigIn inp)" by force
    then have empty: "[sigIdx + 1 ..< length (sigIn inp) - 1] = []" by simp
    have loop: "barLoop inp [sigIdx + 1 ..< length (sigIn inp) - 1] (seedState inp sigIdx)
                 = Inr (seedState inp sigIdx)" by (simp only: empty barLoop.simps)
    have bufs: "cashIdx (seedState inp sigIdx) = replicate (rowsData inp) 0"
      "openEQIdx (seedState inp sigIdx) = replicate (rowsData inp) 0"
      by (simp_all add: seedState_def)
    from shape scan True lt loop show ?thesis
      by (auto simp: calcProfitLoss_def Let_def bufs cleanOpenEQ_zero aggregate_zero)
  qed
qed

theorem no_trade_zero_output_witness:
  "calcProfitLoss exLastBar =
     Inr \<lparr>cash = [0, 0, 0, 0], openEQ = [0, 0, 0, 0], netLiq = [0, 0, 0, 0],
          returns = [0, 0, 0, 0]\<rparr>"
proof -
  have shape: "rowsData exLastBar = length (sigIn exLastBar)"
    "colsData exLastBar = 2 \<or> colsData exLastBar = 4"
    by (simp_all add: exLastBar_def)
  have quiet: "\<forall>i. i + 1 < length (sigIn exLastBar) \<longrightarrow> \<bar>sigIn exLastBar ! i\<bar> < 1"
  proof (intro allI impI)
    fix i assume "i + 1 < length (sigIn exLastBar)"
    then have "i < 3" by (simp add: exLastBar_def)
    then consider "i = 0" | "i = 1" | "i = 2" by arith
    then show "\<bar>sigIn exLastBar ! i\<bar> < 1"
      by cases (simp_all add: exLastBar_def)
  qed
  have rows: "rowsData exLastBar = 4" by (simp add: exLastBar_def)
  from no_trade_zero_output [OF shape quiet] show ?thesis
    by (simp add: rows numeral_eq_Suc)
qed

subsection \<open>Open equity (C9)\<close>

lemma advanced_openEQ: "advanced inp ii st = Inr st1 \<Longrightarrow> openEQIdx st1 = openEQIdx st"
  by (auto simp: advanced_def Let_def split: if_splits)

lemma integerTrade_openEQ: "integerTrade inp ii st = Inr st1 \<Longrightarrow> openEQIdx st1 = openEQIdx st"
  by (auto simp: integerTrade_def Let_def split: if_splits option.splits)

lemma markOpenEQ_openEQ:
  "openEQIdx (markOpenEQ inp ii st) =
     (if openPosition st \<noteq> 0 then
        (openEQIdx st)[ii + 1 := openEQIdx st ! (ii + 1) +
           sum_list (map (\<lambda>e. (dataIn inp ! (ii + 1 + SHIFT_CLOSE inp) - price e)
                                 * of_int (quantity e) * BIG_POINT inp) (openLedger st))]
      else openEQIdx st)"
  by (simp add: markOpenEQ_def foldl_add_sum_list)

lemma barStep_openEQ:
  assumes "barStep inp ii st = Inr st'"
  shows "openEQIdx st' =
     (if openPosition st' \<noteq> 0 then
        (openEQIdx st)[ii + 1 := openEQIdx st ! (ii + 1) +
           sum_list (map (\<lambda>e. (dataIn inp ! (ii + 1 + SHIFT_CLOSE inp) - price e)
                                 * of_int (quantity e) * BIG_POINT inp) (openLedger st'))]
      else openEQIdx st)"
proof (cases "sigIn inp ! ii = 0")
  case True
  with assms have "st' = markOpenEQ inp ii st" by (simp add: barStep_def)
  then show ?thesis by (simp add: markOpenEQ_openEQ)
next
  case False
  with assms obtain st1 st2 where adv: "advanced inp ii st = Inr st1"
    and trade: "integerTrade inp ii st1 = Inr st2" and st': "st' = markOpenEQ inp ii st2"
    by (auto simp: barStep_def split: sum.splits)
  from advanced_openEQ [OF adv] integerTrade_openEQ [OF trade]
  have "openEQIdx st2 = openEQIdx st" by simp
  with st' show ?thesis by (simp add: markOpenEQ_openEQ)
qed

lemma barLoop_openEQ:
  "barLoop inp iis st = Inr st' \<Longrightarrow> \<forall>ii \<in> set iis. ii + 1 \<noteq> m \<Longrightarrow>
   length (openEQIdx st') = length (openEQIdx st) \<and> openEQIdx st' ! m = openEQIdx st ! m"
proof (induction iis arbitrary: st)
  case Nil
  then show ?case by simp
next
  case (Cons ii iis)
  from Cons.prems(1) obtain st1 where step: "barStep inp ii st = Inr st1"
    and rest: "barLoop inp iis st1 = Inr st'"
    by (auto split: sum.splits)
  from Cons.prems(2) have ne: "ii + 1 \<noteq> m" and others: "\<forall>k \<in> set iis. k + 1 \<noteq> m"
    by simp_all
  from barStep_openEQ [OF step] ne
  have "length (openEQIdx st1) = length (openEQIdx st) \<and> openEQIdx st1 ! m = openEQIdx st ! m"
    by (simp split: if_splits)
  with Cons.IH [OF rest others] show ?case by simp
qed

text \<open>
  Claim C9, as amended. After a bar \<open>k\<close> of the loop, \<^verbatim>\<open>openEQIdx[k+1]\<close> is the sum over the
  lots then in the ledger of \<open>(reference - price) * quantity * BIG_POINT\<close> when the position
  is not zero, and 0 when it is zero. The reference price is the entry \<open>k + 1\<close> of the second
  price column when there are two columns and of the fourth when there are four; lots are
  opened at prices of the first column. This is the value the loop writes, before the
  cleaning pass of line 400.
\<close>

theorem open_equity_mark:
  assumes bar: "sigIdx < k" "k + 1 < rowsData inp"
    and run: "barLoop inp [sigIdx + 1 ..< k] (seedState inp sigIdx) = Inr st"
    and step: "barStep inp k st = Inr st'"
  shows "openEQIdx st' ! (k + 1) =
     (if openPosition st' \<noteq> 0 then
        sum_list (map (\<lambda>e. (dataIn inp ! (k + 1 + rowsData inp * (if colsData inp = 4 then 3 else 1))
                               - price e) * of_int (quantity e) * BIG_POINT inp)
                      (openLedger st'))
      else 0)"
proof -
  have "\<forall>ii \<in> set [sigIdx + 1 ..< k]. ii + 1 \<noteq> k + 1" by simp
  from barLoop_openEQ [OF run this]
  have len: "length (openEQIdx st) = rowsData inp" and zero: "openEQIdx st ! (k + 1) = 0"
    using bar(2) by (simp_all add: seedState_def)
  from barStep_openEQ [OF step] len zero bar(2) show ?thesis
    by (simp add: SHIFT_CLOSE_def)
qed

theorem open_equity_mark_witness:
  "barLoop exNarrow [0 + 1 ..< 2] (seedState exNarrow 0) =
     Inr \<lparr>openLedger = [\<lparr>index = 0, quantity = 1, price = 11\<rparr>], openPosition = 1,
          cashIdx = [0, 0, 0, 0], openEQIdx = [0, 0, 2, 0]\<rparr>
   \<and> barStep exNarrow 2
       \<lparr>openLedger = [\<lparr>index = 0, quantity = 1, price = 11\<rparr>], openPosition = 1,
        cashIdx = [0, 0, 0, 0], openEQIdx = [0, 0, 2, 0]\<rparr> =
     Inr \<lparr>openLedger = [\<lparr>index = 0, quantity = 1, price = 11\<rparr>], openPosition = 1,
          cashIdx = [0, 0, 0, 0], openEQIdx = [0, 0, 2, 4]\<rparr>
   \<and> [0, 0, 2, 4 :: real] ! (2 + 1) = (dataIn exNarrow ! (2 + 1 + 4 * 1) - 11) * 1 * 1"
proof -
  have bar: "(0::nat) < 2" "2 + 1 < rowsData exNarrow" by (simp_all add: exNarrow_def)
  have run: "barLoop exNarrow [0 + 1 ..< 2] (seedState exNarrow 0) =
     Inr \<lparr>openLedger = [\<lparr>index = 0, quantity = 1, price = 11\<rparr>], openPosition = 1,
          cashIdx = [0, 0, 0, 0], openEQIdx = [0, 0, 2, 0]\<rparr>" by code_simp
  have step: "barStep exNarrow 2
       \<lparr>openLedger = [\<lparr>index = 0, quantity = 1, price = 11\<rparr>], openPosition = 1,
        cashIdx = [0, 0, 0, 0], openEQIdx = [0, 0, 2, 0]\<rparr> =
     Inr \<lparr>openLedger = [\<lparr>index = 0, quantity = 1, price = 11\<rparr>], openPosition = 1,
          cashIdx = [0, 0, 0, 0], openEQIdx = [0, 0, 2, 4]\<rparr>" by code_simp
  have shape: "rowsData exNarrow = 4" "colsData exNarrow = 2" "BIG_POINT exNarrow = 1"
    by (simp_all add: exNarrow_def)
  from open_equity_mark [OF bar run step]
  have "[0, 0, 2, 4 :: real] ! (2 + 1) = (dataIn exNarrow ! (2 + 1 + 4 * 1) - 11) * 1 * 1"
    by (simp add: shape)
  with run step show ?thesis by blast
qed

text \<open>
  Claim C9 as stated fails for two price columns: the mark after bar 1 is taken against the
  second column (13, giving 2), not against the column of the execution prices (12, giving 1).
\<close>

theorem open_equity_narrow_counterexample:
  "colsData exNarrow = 2
   \<and> barStep exNarrow 1 (seedState exNarrow 0) =
       Inr \<lparr>openLedger = [\<lparr>index = 0, quantity = 1, price = 11\<rparr>], openPosition = 1,
            cashIdx = [0, 0, 0, 0], openEQIdx = [0, 0, 2, 0]\<rparr>
   \<and> dataIn exNarrow ! (0 + 1) = 11
   \<and> [0, 0, 2, 0] ! (1 + 1) \<noteq> (dataIn exNarrow ! (1 + 1) - 11) * of_int 1 * BIG_POINT exNarrow
   \<and> [0, 0, 2, 0] ! (1 + 1)
       = (dataIn exNarrow ! (1 + 1 + rowsData exNarrow) - 11) * of_int 1 * BIG_POINT exNarrow"
  by code_simp

subsection \<open>Whole signals in the partial liquidation (C10)\<close>

text \<open>
  Claim C10. A fractional signal aborts the run, or is additive and leaves the state to the
  additive branch, or empties the ledger and sets the position to zero, after which the
  signal is additive or meets the full-liquidation test. So the partial-liquidation branch
  (neither additive nor a full liquidation, after the advanced handling) is reached with a
  whole signal only: the truncations in \<^verbatim>\<open>needQty\<close> and in the position update lose nothing.
\<close>

theorem partial_liquidation_whole_signal:
  "(fraction (sigIn inp ! ii) \<longrightarrow>
      advanced inp ii st = Inl (FractionUnknown (sigIn inp ! ii) 295)
      \<or> (advanced inp ii st = Inr st \<and> additiveTrade (openPosition st) (sigIn inp ! ii))
      \<or> (\<exists>st1. advanced inp ii st = Inr st1 \<and> openPosition st1 = 0 \<and> openLedger st1 = []
               \<and> (additiveTrade 0 (sigIn inp ! ii) \<or> fullLiquidation 0 (sigIn inp ! ii))))
   \<and> (advanced inp ii st = Inr st1
        \<and> \<not> additiveTrade (openPosition st1) (sigIn inp ! ii)
        \<and> \<not> fullLiquidation (openPosition st1) (sigIn inp ! ii) \<longrightarrow>
      \<not> fraction (sigIn inp ! ii)
      \<and> of_int (cint (sigIn inp ! ii)) = sigIn inp ! ii
      \<and> cint (of_int (openPosition st1) + sigIn inp ! ii)
          = openPosition st1 + cint (sigIn inp ! ii))"
proof (intro conjI impI)
  assume fr: "fraction (sigIn inp ! ii)"
  show "advanced inp ii st = Inl (FractionUnknown (sigIn inp ! ii) 295)
      \<or> (advanced inp ii st = Inr st \<and> additiveTrade (openPosition st) (sigIn inp ! ii))
      \<or> (\<exists>st1. advanced inp ii st = Inr st1 \<and> openPosition st1 = 0 \<and> openLedger st1 = []
               \<and> (additiveTrade 0 (sigIn inp ! ii) \<or> fullLiquidation 0 (sigIn inp ! ii)))"
  proof (cases "knownAdvSig (sigIn inp ! ii)")
    case False
    with fr show ?thesis by (simp add: advanced_def)
  next
    case known: True
    show ?thesis
    proof (cases "additiveTrade (openPosition st) (sigIn inp ! ii)")
      case True
      with fr known show ?thesis by (simp add: advanced_def)
    next
      case False
      with fr known flat_full [of "sigIn inp ! ii"] show ?thesis
        by (auto simp: advanced_def knownAdvSig_def Let_def)
    qed
  qed
next
  assume a: "advanced inp ii st = Inr st1
        \<and> \<not> additiveTrade (openPosition st1) (sigIn inp ! ii)
        \<and> \<not> fullLiquidation (openPosition st1) (sigIn inp ! ii)"
  then have nf: "\<not> fraction (sigIn inp ! ii)" by (blast dest: partial_whole)
  then show "\<not> fraction (sigIn inp ! ii)" .
  from whole_signal [OF nf] show w: "of_int (cint (sigIn inp ! ii)) = sigIn inp ! ii" by simp
  have "cint (of_int (openPosition st1) + of_int (cint (sigIn inp ! ii)))
          = openPosition st1 + cint (sigIn inp ! ii)"
    by (simp flip: of_int_add)
  with w show "cint (of_int (openPosition st1) + sigIn inp ! ii)
          = openPosition st1 + cint (sigIn inp ! ii)" by simp
qed

theorem partial_liquidation_whole_signal_witness:
  "fraction (sigIn exReverse ! 1)
   \<and> (advanced exReverse 1 (seedState exReverse 0)
         = Inl (FractionUnknown (sigIn exReverse ! 1) 295)
      \<or> (advanced exReverse 1 (seedState exReverse 0) = Inr (seedState exReverse 0)
           \<and> additiveTrade (openPosition (seedState exReverse 0)) (sigIn exReverse ! 1))
      \<or> (\<exists>st1. advanced exReverse 1 (seedState exReverse 0) = Inr st1
               \<and> openPosition st1 = 0 \<and> openLedger st1 = []
               \<and> (additiveTrade 0 (sigIn exReverse ! 1)
                    \<or> fullLiquidation 0 (sigIn exReverse ! 1))))
   \<and> advanced exShort 2
        \<lparr>openLedger = [\<lparr>index = 0, quantity = - 1, price = 10\<rparr>,
                        \<lparr>index = 1, quantity = - 4, price = 10\<rparr>],
         openPosition = - 5, cashIdx = [0, 0, 0, 0, 0], openEQIdx = [0, 0, 0, 0, 0]\<rparr>
       = Inr \<lparr>openLedger = [\<lparr>index = 0, quantity = - 1, price = 10\<rparr>,
                             \<lparr>index = 1, quantity = - 4, price = 10\<rparr>],
              openPosition = - 5, cashIdx = [0, 0, 0, 0, 0], openEQIdx = [0, 0, 0, 0, 0]\<rparr>
   \<and> \<not> additiveTrade (- 5) (sigIn exShort ! 2)
   \<and> \<not> fullLiquidation (- 5) (sigIn exShort ! 2)
   \<and> \<not> fraction (sigIn exShort ! 2)
   \<and> of_int (cint (sigIn exShort ! 2)) = sigIn exShort ! 2"
proof -
  let ?st = "\<lparr>openLedger = [\<lparr>index = 0, quantity = - 1, price = 10\<rparr>,
                             \<lparr>index = 1, quantity = - 4, price = 10\<rparr>],
              openPosition = - 5, cashIdx = [0, 0, 0, 0, 0], openEQIdx = [0, 0, 0, 0, 0]\<rparr>"
  have fr: "fraction (sigIn exReverse ! 1)" by code_simp
  have adv: "advanced exShort 2 ?st = Inr ?st" by code_simp
  have na: "\<not> additiveTrade (- 5) (sigIn exShort ! 2)" by code_simp
  have nf: "\<not> fullLiquidation (- 5) (sigIn exShort ! 2)" by code_simp
  from partial_liquidation_whole_signal
         [where inp = exReverse and ii = 1 and st = "seedState exReverse 0"] fr
  have a: "advanced exReverse 1 (seedState exReverse 0)
         = Inl (FractionUnknown (sigIn exReverse ! 1) 295)
      \<or> (advanced exReverse 1 (seedState exReverse 0) = Inr (seedState exReverse 0)
           \<and> additiveTrade (openPosition (seedState exReverse 0)) (sigIn exReverse ! 1))
      \<or> (\<exists>st1. advanced exReverse 1 (seedState exReverse 0) = Inr st1
               \<and> openPosition st1 = 0 \<and> openLedger st1 = []
               \<and> (additiveTrade 0 (sigIn exReverse ! 1)
                    \<or> fullLiquidation 0 (sigIn exReverse ! 1)))"
    by blast
  from partial_liquidation_whole_signal
         [where inp = exShort and ii = 2 and st = ?st and ?st1.0 = ?st] adv na nf
  have b: "\<not> fraction (sigIn exShort ! 2)
           \<and> of_int (cint (sigIn exShort ! 2)) = sigIn exShort ! 2"
    by simp
  from fr a adv na nf b show ?thesis by blast
qed

end
